theory Spec2Isabelle
  imports Main
begin

section \<open>Errors and the program state\<close>

text \<open>
  What can be thrown. The error classes of \<^verbatim>\<open>types/agent.ts\<close> carry their message. A
  thrown \<^verbatim>\<open>Error\<close> that is not an \<^verbatim>\<open>AgentError\<close> is \<open>OtherError\<close>, except for the two that
  the code under study raises by itself: the \<^verbatim>\<open>TypeError\<close> of reading a property of
  \<^verbatim>\<open>undefined\<close> or \<^verbatim>\<open>null\<close>, and the \<^verbatim>\<open>RangeError\<close> of \<^verbatim>\<open>toISOString()\<close> on an invalid
  date (their texts are the engine's and are not modelled). \<open>ThrownUndefined\<close> and
  \<open>ThrownNull\<close> are the values \<^verbatim>\<open>undefined\<close> and \<^verbatim>\<open>null\<close> when they are thrown.
\<close>

datatype error =
    ConfigurationError string
  | RateLimitError string
  | CircuitBreakerError string
  | OtherError string
  | TypeError
  | RangeError
  | ThrownUndefined
  | ThrownNull

text \<open>
  The fourth constructor argument of \<^verbatim>\<open>AgentError\<close>, as each subclass passes it to
  \<^verbatim>\<open>super\<close>; a thrown value that is not an \<^verbatim>\<open>AgentError\<close> has no such property.
\<close>

fun isRetryable :: "error \<Rightarrow> bool option" where
  "isRetryable (ConfigurationError m) = Some False"
| "isRetryable (RateLimitError m) = Some False"
| "isRetryable (CircuitBreakerError m) = Some True"
| "isRetryable e = None"

text \<open>
  Whether reading \<^verbatim>\<open>.message\<close> of a caught value works: it throws a \<^verbatim>\<open>TypeError\<close> for
  \<^verbatim>\<open>undefined\<close> and \<^verbatim>\<open>null\<close>, and for nothing else.
\<close>

fun has_message :: "error \<Rightarrow> bool" where
  "has_message ThrownUndefined = False"
| "has_message ThrownNull = False"
| "has_message e = True"

text \<open>
  The times for which \<^verbatim>\<open>new Date(t).toISOString()\<close> returns; for any other it throws a
  \<^verbatim>\<open>RangeError\<close>.
\<close>

definition valid_date :: "int \<Rightarrow> bool" where
  "valid_date t = (- 8640000000000000 \<le> t \<and> t \<le> 8640000000000000)"

datatype CircuitState = Closed | Open | HalfOpen

record CircuitBreakerImpl =
  state :: CircuitState
  failureCount :: int
  lastFailureTime :: int
  nextAttemptTime :: int
  threshold :: int
  timeout :: int

text \<open>
  An \<^verbatim>\<open>AgentInstance\<close>: its registered tools (by name), whether \<^verbatim>\<open>typeof run\<close> is
  \<^verbatim>\<open>'function'\<close>, and the model of its configuration.
\<close>

record AgentInstance =
  tools :: "string list"
  run_callable :: bool
  model :: string

record RateLimitEntry =
  count :: int
  resetTime :: int

text \<open>
  The state of the process: the clock that \<^verbatim>\<open>Date.now()\<close> reads, in milliseconds; the delays
  that have been awaited through \<^verbatim>\<open>setTimeout\<close>, in order; the fields of the one
  \<^verbatim>\<open>AgentManagerImpl\<close> (with its one circuit breaker); the map of the one
  \<^verbatim>\<open>InMemoryRateLimiter\<close>. Synchronous code reads one value of the clock; an awaited
  operation is a function on the whole state and may move the clock as it likes. The
  logger writes nothing that the program reads; of its calls only the arguments that can
  throw while they are evaluated are modelled.
\<close>

record sys =
  now :: int
  sleeps :: "int list"
  circuitBreaker :: CircuitBreakerImpl
  agent :: "AgentInstance option"
  isInitializing :: bool
  lastHealthCheck :: int
  requests :: "string \<rightharpoonup> RateLimitEntry"

type_synonym ('a, 'z) action = "'z sys_scheme \<Rightarrow> (error + 'a) \<times> 'z sys_scheme"

section \<open>Circuit breaker\<close>

definition new_CircuitBreakerImpl :: "int \<Rightarrow> int \<Rightarrow> CircuitBreakerImpl" where
  "new_CircuitBreakerImpl thr tmo =
     \<lparr>state = Closed, failureCount = 0, lastFailureTime = 0, nextAttemptTime = 0,
      threshold = thr, timeout = tmo\<rparr>"

definition canExecute :: "int \<Rightarrow> CircuitBreakerImpl \<Rightarrow> bool" where
  "canExecute t b =
     (if state b = Closed then True
      else if state b = Open then t \<ge> nextAttemptTime b
      else True)"

definition recordSuccess :: "CircuitBreakerImpl \<Rightarrow> CircuitBreakerImpl" where
  "recordSuccess b =
     (let b1 = b\<lparr>failureCount := 0\<rparr>
      in if state b1 = HalfOpen then b1\<lparr>state := Closed\<rparr> else b1)"

definition recordFailure :: "int \<Rightarrow> CircuitBreakerImpl \<Rightarrow> CircuitBreakerImpl" where
  "recordFailure t b =
     (let b1 = b\<lparr>failureCount := failureCount b + 1, lastFailureTime := t\<rparr>
      in if failureCount b1 \<ge> threshold b1
         then b1\<lparr>state := Open, nextAttemptTime := t + timeout b1\<rparr>
         else b1)"

text \<open>
  \<^verbatim>\<open>recordFailure\<close> ends, when it opens the breaker, with a warning whose argument is
  \<^verbatim>\<open>new Date(this.nextAttemptTime).toISOString()\<close>: the fields are written as above and
  then, for a time that is no valid date, the call throws.
\<close>

definition recordFailure_throws :: "int \<Rightarrow> CircuitBreakerImpl \<Rightarrow> bool" where
  "recordFailure_throws t b =
     (failureCount b + 1 \<ge> threshold b \<and> \<not> valid_date (t + timeout b))"

text \<open>
  What \<^verbatim>\<open>execute\<close> does before it awaits \<^verbatim>\<open>fn()\<close>, once \<^verbatim>\<open>canExecute\<close> has said yes:
  an open breaker whose time gate has passed becomes half-open.
\<close>

definition enter :: "int \<Rightarrow> CircuitBreakerImpl \<Rightarrow> CircuitBreakerImpl" where
  "enter t b =
     (if state b = Open \<and> t \<ge> nextAttemptTime b then b\<lparr>state := HalfOpen\<rparr> else b)"

definition execute :: "('a, 'z) action \<Rightarrow> ('a, 'z) action" where
  "execute fn s =
     (if \<not> canExecute (now s) (circuitBreaker s)
      then (Inl (CircuitBreakerError ''Circuit breaker is open''), s)
      else
        let s1 = s\<lparr>circuitBreaker := enter (now s) (circuitBreaker s)\<rparr>
        in case fn s1 of
             (Inr result, s2) \<Rightarrow>
               (Inr result, s2\<lparr>circuitBreaker := recordSuccess (circuitBreaker s2)\<rparr>)
           | (Inl err, s2) \<Rightarrow>
               (if recordFailure_throws (now s2) (circuitBreaker s2) then Inl RangeError
                else Inl err,
                s2\<lparr>circuitBreaker := recordFailure (now s2) (circuitBreaker s2)\<rparr>))"

text \<open>
  The breaker under calls that overlap. \<^verbatim>\<open>execute\<close> awaits \<^verbatim>\<open>fn()\<close>, so between its
  first half and its second half other calls may start and finish. An event is the start of a
  call at a time (rejected, or admitted and then in flight), or the end of a call in flight:
  its success, or its failure at a time. The second component of the state counts the calls
  in flight.
\<close>

datatype event = Begin int | Succeed | Fail int

fun step :: "event \<Rightarrow> CircuitBreakerImpl \<times> nat \<Rightarrow> (CircuitBreakerImpl \<times> nat) option" where
  "step (Begin t) (b, k) =
     (if canExecute t b then Some (enter t b, Suc k) else Some (b, k))"
| "step Succeed (b, k) = (if k = 0 then None else Some (recordSuccess b, k - 1))"
| "step (Fail t) (b, k) = (if k = 0 then None else Some (recordFailure t b, k - 1))"

fun run :: "event list \<Rightarrow> CircuitBreakerImpl \<times> nat \<Rightarrow> (CircuitBreakerImpl \<times> nat) option" where
  "run [] c = Some c"
| "run (e # es) c = (case step e c of None \<Rightarrow> None | Some c' \<Rightarrow> run es c')"

text \<open>The same, with no call starting while another is in flight.\<close>

fun step_serial :: "event \<Rightarrow> CircuitBreakerImpl \<times> nat \<Rightarrow> (CircuitBreakerImpl \<times> nat) option" where
  "step_serial (Begin t) (b, k) = (if k = 0 then step (Begin t) (b, k) else None)"
| "step_serial e (b, k) = step e (b, k)"

fun run_serial :: "event list \<Rightarrow> CircuitBreakerImpl \<times> nat \<Rightarrow> (CircuitBreakerImpl \<times> nat) option" where
  "run_serial [] c = Some c"
| "run_serial (e # es) c = (case step_serial e c of None \<Rightarrow> None | Some c' \<Rightarrow> run_serial es c')"

text \<open>
  A list of calls made one after the other through \<^verbatim>\<open>execute\<close>; before each call the clock
  moves on by the given amount. The results are returned in order.
\<close>

fun execute_all :: "(int \<times> ('a, 'z) action) list \<Rightarrow> 'z sys_scheme \<Rightarrow> (error + 'a) list \<times> 'z sys_scheme" where
  "execute_all [] s = ([], s)"
| "execute_all ((dt, fn) # cs) s =
     (case execute fn (s\<lparr>now := now s + dt\<rparr>) of
        (r, s') \<Rightarrow> (case execute_all cs s' of (rs, s'') \<Rightarrow> (r # rs, s'')))"

text \<open>An operation that fails whenever it is invoked, and one that leaves the breaker alone.\<close>

definition always_fails :: "('a, 'z) action \<Rightarrow> bool" where
  "always_fails fn = (\<forall>s. isl (fst (fn s)))"

definition keeps_breaker :: "('a, 'z) action \<Rightarrow> bool" where
  "keeps_breaker fn = (\<forall>s. circuitBreaker (snd (fn s)) = circuitBreaker s)"

text \<open>
  The breakers met while calls keep failing: closed with the count still below the
  threshold and at least \<open>j\<close>, or open with the count at the threshold or above.
\<close>

definition tripping :: "int \<Rightarrow> int \<Rightarrow> CircuitBreakerImpl \<Rightarrow> bool" where
  "tripping N j b = (threshold b = N \<and>
     ((state b = Closed \<and> failureCount b < N \<and> j \<le> failureCount b) \<or>
      (state b = Open \<and> N \<le> failureCount b)))"

text \<open>The invariant under overlapping calls, and the stronger one of calls made one at a time.\<close>

definition inv_any :: "CircuitBreakerImpl \<times> nat \<Rightarrow> bool" where
  "inv_any c = (0 < threshold (fst c) \<and>
     (state (fst c) = Closed \<longrightarrow> failureCount (fst c) < threshold (fst c)))"

definition inv_serial :: "CircuitBreakerImpl \<times> nat \<Rightarrow> bool" where
  "inv_serial c = (0 < threshold (fst c) \<and>
     (state (fst c) = Closed \<longleftrightarrow> failureCount (fst c) < threshold (fst c)) \<and>
     snd c \<le> 1 \<and> (snd c = 1 \<longrightarrow> state (fst c) \<noteq> Open))"

text \<open>
  The process as it starts: the clock at zero, a fresh breaker with the given threshold and
  timeout, no agent, an empty rate-limit map. Two operations used as concrete inputs: one
  that fails and one that succeeds, neither touching the state.
\<close>

definition initial_sys :: "int \<Rightarrow> int \<Rightarrow> sys" where
  "initial_sys thr tmo =
     \<lparr>now = 0, sleeps = [], circuitBreaker = new_CircuitBreakerImpl thr tmo, agent = None,
      isInitializing = False, lastHealthCheck = 0, requests = Map.empty\<rparr>"

definition fail_op :: "(unit, unit) action" where
  "fail_op s = (Inl (OtherError ''remote failure''), s)"

definition ok_op :: "(unit, unit) action" where
  "ok_op s = (Inr (), s)"

section \<open>Retry with exponential backoff\<close>

text \<open>
  \<^verbatim>\<open>await new Promise(resolve => setTimeout(resolve, delay))\<close>: the delay is recorded and
  the clock moves on by it (a timer that fires exactly on time; a delay below zero fires at
  once).
\<close>

definition sleep :: "int \<Rightarrow> 'z sys_scheme \<Rightarrow> 'z sys_scheme" where
  "sleep delay s = s\<lparr>now := now s + max 0 delay, sleeps := sleeps s @ [delay]\<rparr>"

text \<open>
  The loop of \<^verbatim>\<open>withRetry\<close>, from the value \<open>attempt\<close> of its counter, with \<open>lastError\<close>
  unassigned (\<open>None\<close>) or holding the value caught last. While retries remain, the
  warning reads \<^verbatim>\<open>lastError.message\<close>: for a caught \<^verbatim>\<open>undefined\<close> or \<^verbatim>\<open>null\<close> this throws
  a \<^verbatim>\<open>TypeError\<close> out of the \<^verbatim>\<open>catch\<close> block, and with it out of \<^verbatim>\<open>withRetry\<close>.
\<close>

function retry_loop ::
  "('a, 'z) action \<Rightarrow> int \<Rightarrow> int \<Rightarrow> int \<Rightarrow> error option \<Rightarrow> ('a, 'z) action" where
  "retry_loop fn maxRetries baseDelay attempt lastError s =
     (if attempt \<le> maxRetries then
        (case fn s of
           (Inr result, s') \<Rightarrow> (Inr result, s')
         | (Inl err, s') \<Rightarrow>
             if attempt < maxRetries
             then (if has_message err
                   then retry_loop fn maxRetries baseDelay (attempt + 1) (Some err)
                          (sleep (baseDelay * 2 ^ nat attempt) s')
                   else (Inl TypeError, s'))
             else retry_loop fn maxRetries baseDelay (attempt + 1) (Some err) s')
      else (Inl (case lastError of None \<Rightarrow> ThrownUndefined | Some err \<Rightarrow> err), s))"
  by pat_completeness auto
termination
  by (relation "measure (\<lambda>(fn, maxRetries, baseDelay, attempt, lastError, s).
        nat (maxRetries + 1 - attempt))") auto

declare retry_loop.simps [simp del]

definition withRetry :: "('a, 'z) action \<Rightarrow> int \<Rightarrow> int \<Rightarrow> ('a, 'z) action" where
  "withRetry fn maxRetries baseDelay s = retry_loop fn maxRetries baseDelay 0 None s"









section \<open>Agent manager\<close>

text \<open>The values of \<^verbatim>\<open>lib/config.ts\<close> that the code under study reads.\<close>

record Config =
  OPENAI_API_KEY :: string
  OPENAI_MODEL :: string
  RATE_LIMIT_REQUESTS :: int
  RATE_LIMIT_WINDOW :: int
  MAX_RETRIES :: int
  RETRY_DELAY_MS :: int
  CIRCUIT_BREAKER_THRESHOLD :: int
  CIRCUIT_BREAKER_TIMEOUT :: int

text \<open>The defaults of the configuration schema, around a given key.\<close>

definition default_config :: "string \<Rightarrow> Config" where
  "default_config key =
     \<lparr>OPENAI_API_KEY = key, OPENAI_MODEL = ''gpt-4o-mini'', RATE_LIMIT_REQUESTS = 100,
      RATE_LIMIT_WINDOW = 60, MAX_RETRIES = 3, RETRY_DELAY_MS = 1000,
      CIRCUIT_BREAKER_THRESHOLD = 5, CIRCUIT_BREAKER_TIMEOUT = 60000\<rparr>"

definition getRateLimitWindow :: "Config \<Rightarrow> int" where
  "getRateLimitWindow cfg = RATE_LIMIT_WINDOW cfg * 1000"


text \<open>
  The operation that \<^verbatim>\<open>initializeAgent\<close> hands to the breaker. The constructors of the
  library (\<^verbatim>\<open>tool\<close>, \<^verbatim>\<open>agent\<close>, \<^verbatim>\<open>openai\<close>) are taken not to throw; the \<^verbatim>\<open>catch\<close> around
  the body logs and throws the same error again.
\<close>

definition construct_agent :: "Config \<Rightarrow> (AgentInstance, 'z) action" where
  "construct_agent cfg s =
     (if OPENAI_API_KEY cfg = []
      then (Inl (ConfigurationError ''OpenAI API key is not configured''), s)
      else
        let wrappedAgent = \<lparr>tools = [''greet''], run_callable = True, model = OPENAI_MODEL cfg\<rparr>
        in (Inr wrappedAgent, s\<lparr>agent := Some wrappedAgent\<rparr>))"

text \<open>
  \<^verbatim>\<open>initializeAgent\<close> and \<^verbatim>\<open>getAgent\<close>. \<open>inflight\<close> is the value with which the promise of
  an initialization already in flight settles, for the branch that returns that promise;
  \<^verbatim>\<open>isInitializing\<close> and \<^verbatim>\<open>initializationPromise\<close> are set and cleared together.
\<close>

definition initializeAgent :: "Config \<Rightarrow> (error + AgentInstance) \<Rightarrow> (AgentInstance, 'z) action" where
  "initializeAgent cfg inflight s =
     (case agent s of
        Some a \<Rightarrow> (Inr a, s)
      | None \<Rightarrow>
          if isInitializing s then (inflight, s)
          else
            (case withRetry (execute (construct_agent cfg)) (MAX_RETRIES cfg) (RETRY_DELAY_MS cfg)
                    (s\<lparr>isInitializing := True\<rparr>) of
               (r, s') \<Rightarrow> (r, s'\<lparr>isInitializing := False\<rparr>)))"

definition getAgent :: "Config \<Rightarrow> (error + AgentInstance) \<Rightarrow> (AgentInstance, 'z) action" where
  "getAgent cfg inflight s =
     (case agent s of
        Some a \<Rightarrow> (Inr a, s)
      | None \<Rightarrow>
          if isInitializing s then (inflight, s)
          else initializeAgent cfg inflight s)"

definition isInitialized :: "'z sys_scheme \<Rightarrow> bool" where
  "isInitialized s = (agent s \<noteq> None)"

datatype HealthStatus = healthy | unhealthy | initializing

record Health =
  status :: HealthStatus
  healthLastHealthCheck :: int
  error :: "string option"

text \<open>
  \<^verbatim>\<open>getHealth\<close>. Reading \<^verbatim>\<open>tools.length\<close> and \<^verbatim>\<open>run\<close> of an \<^verbatim>\<open>AgentInstance\<close> does not
  throw, so the \<^verbatim>\<open>catch\<close> branch is not reached.
\<close>

definition getHealth :: "'z sys_scheme \<Rightarrow> Health \<times> 'z sys_scheme" where
  "getHealth s =
     (if now s - lastHealthCheck s < 30000
      then (\<lparr>status = (if agent s \<noteq> None then healthy else unhealthy),
             healthLastHealthCheck = lastHealthCheck s, error = None\<rparr>, s)
      else
        let s1 = s\<lparr>lastHealthCheck := now s\<rparr>
        in (case agent s1 of
              None \<Rightarrow>
                (\<lparr>status = initializing, healthLastHealthCheck = now s,
                  error = Some ''Agent not initialized''\<rparr>, s1)
            | Some a \<Rightarrow>
                let isHealthy = (length (tools a) > 0 \<and> run_callable a)
                in (\<lparr>status = (if isHealthy then healthy else unhealthy),
                     healthLastHealthCheck = now s, error = None\<rparr>, s1)))"

definition shutdown :: "'z sys_scheme \<Rightarrow> 'z sys_scheme" where
  "shutdown s = s\<lparr>agent := None, isInitializing := False\<rparr>"

section \<open>Rate limiter\<close>

text \<open>
  How a template literal and \<^verbatim>\<open>toString()\<close> print an integer: decimal digits, with a minus
  sign below zero.
\<close>

definition digit :: "nat \<Rightarrow> char" where
  "digit n = ''0123456789'' ! n"

function string_of_nat :: "nat \<Rightarrow> string" where
  "string_of_nat n =
     (if n < 10 then [digit n] else string_of_nat (n div 10) @ [digit (n mod 10)])"
  by pat_completeness auto
termination
  by (relation "measure id") auto

declare string_of_nat.simps [simp del]

definition string_of_int :: "int \<Rightarrow> string" where
  "string_of_int i =
     (if i < 0 then CHR ''-'' # string_of_nat (nat (- i)) else string_of_nat (nat i))"

text \<open>The number that a string of digits denotes.\<close>

definition digits_value :: "string \<Rightarrow> nat" where
  "digits_value ds = foldl (\<lambda>acc c. 10 * acc + (of_char c - 48)) 0 ds"

record LimitResult =
  allowed :: bool
  remaining :: int
  resultResetTime :: int

text \<open>
  \<^verbatim>\<open>checkLimit\<close> of a limiter built with the given \<^verbatim>\<open>maxRequests\<close> and \<^verbatim>\<open>windowMs\<close>.
  \<^verbatim>\<open>Math.floor(now / windowMs)\<close> is \<open>div\<close> for a window other than zero. An entry read
  from the map is the stored object itself: resetting it writes through to the map, also
  when the request is then refused.
\<close>

definition limit_key :: "string \<Rightarrow> int \<Rightarrow> string" where
  "limit_key identifier windowKey = identifier @ '':'' @ string_of_int windowKey"

definition checkLimit :: "int \<Rightarrow> int \<Rightarrow> string \<Rightarrow> 'z sys_scheme \<Rightarrow> LimitResult \<times> 'z sys_scheme" where
  "checkLimit maxRequests windowMs identifier s =
     (let t = now s;
          windowKey = t div windowMs;
          key = limit_key identifier windowKey;
          stored = requests s key;
          current0 = (case stored of
                        None \<Rightarrow> \<lparr>count = 0, resetTime = t + windowMs\<rparr>
                      | Some e \<Rightarrow> e);
          current = (if t > resetTime current0
                     then \<lparr>count = 0, resetTime = t + windowMs\<rparr>
                     else current0);
          m1 = (case stored of None \<Rightarrow> requests s | Some e \<Rightarrow> (requests s)(key \<mapsto> current));
          remaining0 = max 0 (maxRequests - count current);
          allowed0 = (count current < maxRequests)
      in if allowed0
         then (\<lparr>allowed = True, remaining = remaining0 - 1, resultResetTime = resetTime current\<rparr>,
               s\<lparr>requests := m1(key \<mapsto> current\<lparr>count := count current + 1\<rparr>)\<rparr>)
         else (\<lparr>allowed = False, remaining = remaining0, resultResetTime = resetTime current\<rparr>,
               s\<lparr>requests := m1\<rparr>))"

definition reset :: "int \<Rightarrow> string \<Rightarrow> 'z sys_scheme \<Rightarrow> 'z sys_scheme" where
  "reset windowMs identifier s =
     s\<lparr>requests := (requests s)(limit_key identifier (now s div windowMs) := None)\<rparr>"

text \<open>\<^verbatim>\<open>cleanup\<close>: every entry whose \<^verbatim>\<open>resetTime\<close> lies before the clock is deleted.\<close>

definition cleanup :: "'z sys_scheme \<Rightarrow> 'z sys_scheme" where
  "cleanup s =
     s\<lparr>requests := (\<lambda>key. case requests s key of
                          None \<Rightarrow> None
                        | Some data \<Rightarrow> if now s > resetTime data then None else Some data)\<rparr>"

text \<open>
  The constructor registers \<^verbatim>\<open>setInterval(() => this.cleanup(), 60000)\<close>: for a limiter
  built at time \<open>t0\<close>, the \<open>j\<close>-th sweep runs at this time (timers firing on time).
\<close>

definition sweep_interval :: int where
  "sweep_interval = 60000"

definition sweep_time :: "int \<Rightarrow> nat \<Rightarrow> int" where
  "sweep_time t0 j = t0 + sweep_interval * int j"

text \<open>
  The count that the current window holds for a client: that of the entry under the key of
  the window, zero when there is none or when it has expired.
\<close>

definition window_count :: "int \<Rightarrow> string \<Rightarrow> 'z sys_scheme \<Rightarrow> int" where
  "window_count windowMs identifier s =
     (case requests s (limit_key identifier (now s div windowMs)) of
        None \<Rightarrow> 0
      | Some e \<Rightarrow> if now s > resetTime e then 0 else count e)"

text \<open>The first sweep of a limiter built at \<open>t0\<close> that runs after the time \<open>r\<close>.\<close>

definition first_sweep_after :: "int \<Rightarrow> int \<Rightarrow> nat" where
  "first_sweep_after t0 r = nat ((r - t0) div sweep_interval + 1)"

text \<open>A sequence of checks by one client, one at each of the given readings of the clock.\<close>

fun check_all :: "int \<Rightarrow> int \<Rightarrow> string \<Rightarrow> int list \<Rightarrow> 'z sys_scheme \<Rightarrow> LimitResult list \<times> 'z sys_scheme" where
  "check_all maxRequests windowMs identifier [] s = ([], s)"
| "check_all maxRequests windowMs identifier (t # ts) s =
     (case checkLimit maxRequests windowMs identifier (s\<lparr>now := t\<rparr>) of
        (r, s') \<Rightarrow> (case check_all maxRequests windowMs identifier ts s' of
                     (rs, s'') \<Rightarrow> (r # rs, s'')))"

subsection \<open>Client identity\<close>

definition b64 :: "nat \<Rightarrow> char" where
  "b64 n = ''ABCDEFGHIJKLMNOPQRSTUVWXYZabcdefghijklmnopqrstuvwxyz0123456789+/'' ! n"

text \<open>\<^verbatim>\<open>toString('base64')\<close> of a buffer with the given bytes.\<close>

fun base64 :: "string \<Rightarrow> string" where
  "base64 [] = []"
| "base64 [a] =
     (let x = of_char a :: nat
      in [b64 (x div 4), b64 ((x mod 4) * 16), CHR ''='', CHR ''=''])"
| "base64 [a, b] =
     (let x = of_char a :: nat; y = of_char b :: nat
      in [b64 (x div 4), b64 ((x mod 4) * 16 + y div 16), b64 ((y mod 16) * 4), CHR ''=''])"
| "base64 (a # b # c # rest) =
     (let x = of_char a :: nat; y = of_char b :: nat; z = of_char c :: nat
      in [b64 (x div 4), b64 ((x mod 4) * 16 + y div 16), b64 ((y mod 16) * 4 + z div 64),
          b64 (z mod 64)] @ base64 rest)"

text \<open>
  A header value is a string whose characters are the bytes received, one character each
  (code points up to 255). \<^verbatim>\<open>Buffer.from(str)\<close> encodes a string in UTF-8: a character
  below 128 is one byte, one from 128 to 255 is two.
\<close>

definition utf8_char :: "char \<Rightarrow> string" where
  "utf8_char c =
     (if (of_char c :: nat) < 128 then [c]
      else [char_of (192 + (of_char c :: nat) div 64), char_of (128 + (of_char c :: nat) mod 64)])"

definition utf8 :: "string \<Rightarrow> string" where
  "utf8 str = concat (map utf8_char str)"

text \<open>
  \<^verbatim>\<open>headers.get(name)\<close> followed by a truthiness test: a header that is absent or empty
  counts as absent.
\<close>

definition header :: "(string \<rightharpoonup> string) \<Rightarrow> string \<Rightarrow> string option" where
  "header hs name = (case hs name of None \<Rightarrow> None | Some v \<Rightarrow> if v = [] then None else Some v)"

text \<open>
  \<^verbatim>\<open>String.prototype.trim\<close>: the white space and line terminators among the code points
  up to 255.
\<close>

definition is_space :: "char \<Rightarrow> bool" where
  "is_space c = (c \<in> set [CHR '' '', CHR 0x09, CHR 0x0A, CHR 0x0B, CHR 0x0C, CHR 0x0D, CHR 0xA0])"

definition trim :: "string \<Rightarrow> string" where
  "trim v = rev (dropWhile is_space (rev (dropWhile is_space v)))"

definition getClientIP :: "(string \<rightharpoonup> string) \<Rightarrow> int \<Rightarrow> string" where
  "getClientIP hs t =
     (case header hs ''x-forwarded-for'' of
        Some forwardedFor \<Rightarrow> trim (takeWhile (\<lambda>c. c \<noteq> CHR '','') forwardedFor)
      | None \<Rightarrow>
          (case header hs ''x-real-ip'' of
             Some realIP \<Rightarrow> realIP
           | None \<Rightarrow>
               (case header hs ''x-client-ip'' of
                  Some clientIP \<Rightarrow> clientIP
                | None \<Rightarrow>
                    let userAgent = (case header hs ''user-agent'' of
                                       Some ua \<Rightarrow> ua | None \<Rightarrow> ''unknown'');
                        entropy = string_of_int t
                    in take 16 (base64 (utf8 (userAgent @ entropy))))))"

text \<open>The user agent that the fallback of \<^verbatim>\<open>getClientIP\<close> uses.\<close>

definition fallback_user_agent :: "(string \<rightharpoonup> string) \<Rightarrow> string" where
  "fallback_user_agent hs = (case header hs ''user-agent'' of Some ua \<Rightarrow> ua | None \<Rightarrow> ''unknown'')"

subsection \<open>The middleware and the chat handler\<close>

text \<open>
  What the library's agent returns from \<^verbatim>\<open>run\<close>: the content of the message and the
  result, each a string, a sequence of parts, or some other value, of which only its
  truthiness matters here.
\<close>

datatype part = Part "string option" string

datatype content = Str string | Arr "part list" | Truthy | Falsy

record RemoteResult =
  message_content :: content
  result_content :: content

fun part_text :: "part \<Rightarrow> string" where
  "part_text (Part t ty) =
     (if (t \<noteq> None \<and> t \<noteq> Some []) \<or> ty = ''text''
      then (case t of None \<Rightarrow> [] | Some x \<Rightarrow> x)
      else [])"

text \<open>
  The two conversions of the wrapped \<^verbatim>\<open>run\<close>. For the message, a value that is neither a
  string nor an array becomes the empty string. For the result it becomes the empty
  string only when it is falsy; a truthy one is passed on as it is.
\<close>

fun messageContent :: "content \<Rightarrow> string" where
  "messageContent (Str x) = x"
| "messageContent (Arr ps) = concat (map part_text ps)"
| "messageContent c = []"

fun resultContent :: "content \<Rightarrow> content" where
  "resultContent (Str x) = Str x"
| "resultContent (Arr ps) = Str (concat (map part_text ps))"
| "resultContent Truthy = Truthy"
| "resultContent Falsy = Str []"

datatype payload =
    ChatReply string content
  | InvalidRequest
  | ErrorReply string
  | RateLimitExceeded int

record response =
  status_code :: int
  headers :: "string \<rightharpoonup> string"
  body :: payload

text \<open>
  \<^verbatim>\<open>withRateLimit\<close>, for the limiter built from the configuration. The handler is awaited
  before \<^verbatim>\<open>limitResult.allowed\<close> is looked at. A handler that throws lands in the
  \<^verbatim>\<open>catch\<close>, which calls it again; so does the warning of a refused request when its
  argument \<^verbatim>\<open>new Date(limitResult.resetTime).toISOString()\<close> throws.
\<close>

definition withRateLimit ::
  "Config \<Rightarrow> (string \<rightharpoonup> string) \<Rightarrow> (response, 'z) action \<Rightarrow> (response, 'z) action" where
  "withRateLimit cfg hs handler s =
     (let clientIP = getClientIP hs (now s)
      in case checkLimit (RATE_LIMIT_REQUESTS cfg) (getRateLimitWindow cfg) clientIP s of
           (limitResult, s1) \<Rightarrow>
             (case handler s1 of
                (Inl err, s2) \<Rightarrow> handler s2
              | (Inr resp, s2) \<Rightarrow>
                  if \<not> allowed limitResult
                  then
                    if \<not> valid_date (resultResetTime limitResult) then handler s2
                    else
                    let retryAfter = - ((- (resultResetTime limitResult - now s2)) div 1000)
                    in (Inr \<lparr>status_code = 429,
                             headers = [''Retry-After'' \<mapsto> string_of_int retryAfter,
                                        ''X-RateLimit-Limit'' \<mapsto> string_of_int (RATE_LIMIT_REQUESTS cfg),
                                        ''X-RateLimit-Remaining'' \<mapsto> ''0'',
                                        ''X-RateLimit-Reset'' \<mapsto> string_of_int (resultResetTime limitResult)],
                             body = RateLimitExceeded retryAfter\<rparr>, s2)
                  else
                    (Inr (resp\<lparr>headers := (headers resp)
                             (''X-RateLimit-Limit'' \<mapsto> string_of_int (RATE_LIMIT_REQUESTS cfg),
                              ''X-RateLimit-Remaining'' \<mapsto> string_of_int (remaining limitResult),
                              ''X-RateLimit-Reset'' \<mapsto> string_of_int (resultResetTime limitResult))\<rparr>),
                     s2)))"

text \<open>
  \<^verbatim>\<open>run\<close> of the wrapped agent: the library's \<^verbatim>\<open>run\<close>, given as \<open>remote\<close>, goes through the
  breaker, and its reply is flattened to strings.
\<close>

definition agent_run :: "(string \<Rightarrow> (RemoteResult, 'z) action) \<Rightarrow> string \<Rightarrow> (string \<times> content, 'z) action" where
  "agent_run remote message =
     execute (\<lambda>s. case remote message s of
                     (Inl err, s') \<Rightarrow> (Inl err, s')
                   | (Inr res, s') \<Rightarrow>
                       (Inr (messageContent (message_content res), resultContent (result_content res)), s'))"

fun statusCode :: "error \<Rightarrow> int" where
  "statusCode (ConfigurationError m) = 500"
| "statusCode (RateLimitError m) = 429"
| "statusCode (CircuitBreakerError m) = 503"
| "statusCode e = 500"

fun code :: "error \<Rightarrow> string" where
  "code (ConfigurationError m) = ''CONFIGURATION_ERROR''"
| "code (RateLimitError m) = ''RATE_LIMIT_EXCEEDED''"
| "code (CircuitBreakerError m) = ''CIRCUIT_BREAKER_OPEN''"
| "code e = ''UNEXPECTED_ERROR''"

text \<open>
  The body of a chat request: not JSON at all, JSON that fails the schema, or a message.
\<close>

datatype request_body = Malformed | Rejected | Message string

text \<open>
  \<^verbatim>\<open>handleChat\<close>: validation, \<^verbatim>\<open>getAgent\<close>, \<^verbatim>\<open>run\<close>, and the mapping of errors to
  responses. Every error is caught, so the handler itself never throws. Request ids, the
  tracker and the analytics are left out.
\<close>

definition handleChat ::
  "Config \<Rightarrow> (error + AgentInstance) \<Rightarrow> (string \<Rightarrow> (RemoteResult, 'z) action) \<Rightarrow> request_body \<Rightarrow>
   (response, 'z) action" where
  "handleChat cfg inflight remote rb s =
     (case rb of
        Malformed \<Rightarrow>
          (Inr \<lparr>status_code = 500, headers = Map.empty, body = ErrorReply ''UNEXPECTED_ERROR''\<rparr>, s)
      | Rejected \<Rightarrow>
          (Inr \<lparr>status_code = 400, headers = Map.empty, body = InvalidRequest\<rparr>, s)
      | Message message \<Rightarrow>
          (case getAgent cfg inflight s of
             (Inl err, s1) \<Rightarrow>
               (Inr \<lparr>status_code = statusCode err, headers = Map.empty, body = ErrorReply (code err)\<rparr>, s1)
           | (Inr a, s1) \<Rightarrow>
               (case agent_run remote message s1 of
                  (Inl err, s2) \<Rightarrow>
                    (Inr \<lparr>status_code = statusCode err, headers = Map.empty,
                          body = ErrorReply (code err)\<rparr>, s2)
                | (Inr (c, r), s2) \<Rightarrow>
                    (Inr \<lparr>status_code = 200, headers = Map.empty, body = ChatReply c r\<rparr>, s2))))"

definition POST ::
  "Config \<Rightarrow> (error + AgentInstance) \<Rightarrow> (string \<Rightarrow> (RemoteResult, 'z) action) \<Rightarrow>
   (string \<rightharpoonup> string) \<Rightarrow> request_body \<Rightarrow> (response, 'z) action" where
  "POST cfg inflight remote hs rb = withRateLimit cfg hs (handleChat cfg inflight remote rb)"

text \<open>
  A state that also lists the messages that reached the remote model, and a remote model
  that records each message and echoes it.
\<close>

record served = sys +
  remote_calls :: "string list"

definition echo_remote :: "string \<Rightarrow> (RemoteResult, unit served_ext) action" where
  "echo_remote message s =
     (Inr \<lparr>message_content = Str message, result_content = Falsy\<rparr>,
      s\<lparr>remote_calls := remote_calls s @ [message]\<rparr>)"

definition initial_served :: "int \<Rightarrow> int \<Rightarrow> served" where
  "initial_served thr tmo =
     \<lparr>now = 0, sleeps = [], circuitBreaker = new_CircuitBreakerImpl thr tmo, agent = None,
      isInitializing = False, lastHealthCheck = 0, requests = Map.empty, remote_calls = []\<rparr>"

section \<open>Properties of the circuit breaker\<close>

lemma execute_rejected:
  "\<not> canExecute (now s) (circuitBreaker s) \<Longrightarrow>
   execute fn s = (Inl (CircuitBreakerError ''Circuit breaker is open''), s)"
  by (simp add: execute_def)

lemma execute_fails_breaker:
  assumes "always_fails fn" and "keeps_breaker fn"
    and "canExecute (now s) (circuitBreaker s)"
  shows "\<exists>t. circuitBreaker (snd (execute fn s)) = recordFailure t (enter (now s) (circuitBreaker s))"
proof -
  let ?s1 = "s\<lparr>circuitBreaker := enter (now s) (circuitBreaker s)\<rparr>"
  obtain r s2 where fn: "fn ?s1 = (r, s2)" by (cases "fn ?s1")
  from assms(1) fn obtain e where r: "r = Inl e"
    by (cases r) (auto simp: always_fails_def dest: spec [of _ ?s1])
  from assms(2) fn have "circuitBreaker s2 = enter (now s) (circuitBreaker s)"
    by (auto simp: keeps_breaker_def dest: spec [of _ ?s1])
  with fn r assms(3) show ?thesis
    by (auto simp: execute_def)
qed

lemma tripping_step:
  assumes "tripping N j (circuitBreaker s)" and "always_fails fn" and "keeps_breaker fn"
  shows "tripping N (j + 1) (circuitBreaker (snd (execute fn s)))"
proof (cases "canExecute (now s) (circuitBreaker s)")
  case False
  then have "execute fn s = (Inl (CircuitBreakerError ''Circuit breaker is open''), s)"
    by (rule execute_rejected)
  moreover from False have "state (circuitBreaker s) = Open"
    by (auto simp: canExecute_def split: if_splits)
  ultimately show ?thesis using assms(1) by (auto simp: tripping_def)
next
  case True
  from execute_fails_breaker [OF assms(2,3) True] obtain t where
    "circuitBreaker (snd (execute fn s)) = recordFailure t (enter (now s) (circuitBreaker s))" ..
  then show ?thesis using assms(1)
    by (auto simp: tripping_def recordFailure_def enter_def Let_def)
qed

lemma tripping_all:
  assumes "tripping N j (circuitBreaker s)"
    and "\<forall>c \<in> set cs. always_fails (snd c) \<and> keeps_breaker (snd c)"
  shows "tripping N (j + int (length cs)) (circuitBreaker (snd (execute_all cs s)))"
  using assms
proof (induction cs arbitrary: s j)
  case Nil
  then show ?case by simp
next
  case (Cons c cs)
  obtain dt fn where c: "c = (dt, fn)" by (cases c)
  let ?s = "s\<lparr>now := now s + dt\<rparr>"
  from Cons.prems c have "tripping N (j + 1) (circuitBreaker (snd (execute fn ?s)))"
    by (intro tripping_step) auto
  from Cons.IH [OF this] Cons.prems(2)
  have "tripping N (j + 1 + int (length cs)) (circuitBreaker (snd (execute_all cs (snd (execute fn ?s)))))"
    by simp
  then show ?case using c
    by (simp add: split_beta ac_simps)
qed

text \<open>
  Claim C6. A breaker with threshold \<open>N > 0\<close> that is closed, with a failure count that a
  closed breaker can have (\<open>0 \<le> failureCount < N\<close>): after \<open>N\<close> calls through
  \<^verbatim>\<open>execute\<close> made one after the other, whose operations fail whenever they are invoked,
  the breaker is open; and any further call made before \<open>nextAttemptTime\<close> returns the
  \<^verbatim>\<open>CircuitBreakerError\<close> and the state it was given, whatever the operation: the operation
  is not invoked and \<open>failureCount\<close> is not incremented.
\<close>

theorem breaker_opens_after_threshold:
  assumes "0 < N"
    and "threshold (circuitBreaker s0) = N"
    and "state (circuitBreaker s0) = Closed"
    and "0 \<le> failureCount (circuitBreaker s0)"
    and "failureCount (circuitBreaker s0) < N"
    and "int (length cs) = N"
    and "\<forall>c \<in> set cs. always_fails (snd c) \<and> keeps_breaker (snd c)"
  shows "state (circuitBreaker (snd (execute_all cs s0))) = Open \<and>
         (\<forall>fn s. circuitBreaker s = circuitBreaker (snd (execute_all cs s0)) \<and>
                 now s < nextAttemptTime (circuitBreaker s) \<longrightarrow>
                 execute fn s = (Inl (CircuitBreakerError ''Circuit breaker is open''), s))"
proof -
  from assms have "tripping N 0 (circuitBreaker s0)"
    by (simp add: tripping_def)
  from tripping_all [OF this assms(7)] assms(6)
  have "tripping N N (circuitBreaker (snd (execute_all cs s0)))" by simp
  then have op: "state (circuitBreaker (snd (execute_all cs s0))) = Open"
    by (auto simp: tripping_def)
  then show ?thesis
    by (auto simp: execute_def canExecute_def)
qed

lemma fail_op_props: "always_fails fail_op" "keeps_breaker fail_op"
  by (simp_all add: always_fails_def keeps_breaker_def fail_op_def)

theorem breaker_opens_after_threshold_witness:
  "state (circuitBreaker (snd (execute_all [(0, fail_op), (5, fail_op)] (initial_sys 2 60000)))) = Open \<and>
   execute ok_op ((snd (execute_all [(0, fail_op), (5, fail_op)] (initial_sys 2 60000)))\<lparr>now := 60004\<rparr>) =
     (Inl (CircuitBreakerError ''Circuit breaker is open''),
      (snd (execute_all [(0, fail_op), (5, fail_op)] (initial_sys 2 60000)))\<lparr>now := 60004\<rparr>)"
proof -
  define cs :: "(int \<times> (unit, unit) action) list" where "cs = [(0, fail_op), (5, fail_op)]"
  define i where "i = initial_sys 2 60000"
  define s where "s = snd (execute_all cs i)"
  have h: "\<forall>c \<in> set cs. always_fails (snd c) \<and> keeps_breaker (snd c)"
    by (simp add: cs_def fail_op_props)
  have p: "(0::int) < 2" "threshold (circuitBreaker i) = 2" "state (circuitBreaker i) = Closed"
    "0 \<le> failureCount (circuitBreaker i)" "failureCount (circuitBreaker i) < 2"
    "int (length cs) = 2"
    by (simp_all add: i_def cs_def initial_sys_def new_CircuitBreakerImpl_def)
  have n: "nextAttemptTime (circuitBreaker s) = 60005"
    by (simp add: s_def cs_def i_def initial_sys_def new_CircuitBreakerImpl_def execute_def
        canExecute_def enter_def fail_op_def recordFailure_def)
  note r = breaker_opens_after_threshold [OF p h, folded s_def]
  from r have "state (circuitBreaker s) = Open" by (rule conjunct1)
  moreover from r have "circuitBreaker (s\<lparr>now := 60004\<rparr>) = circuitBreaker s \<and>
      now (s\<lparr>now := 60004\<rparr>) < nextAttemptTime (circuitBreaker (s\<lparr>now := 60004\<rparr>)) \<longrightarrow>
      execute ok_op (s\<lparr>now := 60004\<rparr>) =
        (Inl (CircuitBreakerError ''Circuit breaker is open''), s\<lparr>now := 60004\<rparr>)"
    by blast
  with n have "execute ok_op (s\<lparr>now := 60004\<rparr>) =
     (Inl (CircuitBreakerError ''Circuit breaker is open''), s\<lparr>now := 60004\<rparr>)"
    by simp
  ultimately show ?thesis
    unfolding s_def cs_def i_def by (rule conjI)
qed

text \<open>The invariants are kept by every event.\<close>

lemma inv_any_step: "inv_any c \<Longrightarrow> step e c = Some c' \<Longrightarrow> inv_any c'"
  by (cases e; cases c)
     (auto simp: inv_any_def canExecute_def enter_def recordSuccess_def recordFailure_def
        Let_def split: if_splits)

lemma inv_serial_step: "inv_serial c \<Longrightarrow> step_serial e c = Some c' \<Longrightarrow> inv_serial c'"
  by (cases e; cases c; cases "state (fst c)")
     (auto simp: inv_serial_def canExecute_def enter_def recordSuccess_def recordFailure_def
        Let_def split: if_splits)

lemma inv_any_run: "inv_any c \<Longrightarrow> run evs c = Some c' \<Longrightarrow> inv_any c'"
proof (induction evs arbitrary: c)
  case Nil
  then show ?case by simp
next
  case (Cons e evs)
  then show ?case by (auto split: option.splits dest: inv_any_step)
qed

lemma inv_serial_run: "inv_serial c \<Longrightarrow> run_serial evs c = Some c' \<Longrightarrow> inv_serial c'"
proof (induction evs arbitrary: c)
  case Nil
  then show ?case by simp
next
  case (Cons e evs)
  then show ?case by (auto split: option.splits dest: inv_serial_step)
qed

text \<open>
  Claim C4, as amended. For a breaker built with a threshold above zero: in every state
  reached by starts and ends of calls, overlapping or not, \<open>failureCount \<ge> threshold\<close>
  implies that the state is not closed (it is open, or half-open while a probe is in flight);
  and when no call starts while another is in flight, the converse holds too.
\<close>

theorem breaker_invariant:
  assumes "0 < thr"
  shows "(run evs (new_CircuitBreakerImpl thr tmo, 0) = Some (b, k) \<longrightarrow>
            (threshold b \<le> failureCount b \<longrightarrow> state b \<noteq> Closed)) \<and>
         (run_serial evs (new_CircuitBreakerImpl thr tmo, 0) = Some (b, k) \<longrightarrow>
            (threshold b \<le> failureCount b \<longleftrightarrow> state b \<noteq> Closed))"
proof -
  have "inv_any (new_CircuitBreakerImpl thr tmo, 0)"
    using assms by (simp add: inv_any_def new_CircuitBreakerImpl_def)
  then have a: "run evs (new_CircuitBreakerImpl thr tmo, 0) = Some (b, k) \<Longrightarrow> inv_any (b, k)"
    by (rule inv_any_run)
  have "inv_serial (new_CircuitBreakerImpl thr tmo, 0)"
    using assms by (simp add: inv_serial_def new_CircuitBreakerImpl_def)
  then have s: "run_serial evs (new_CircuitBreakerImpl thr tmo, 0) = Some (b, k) \<Longrightarrow> inv_serial (b, k)"
    by (rule inv_serial_run)
  show ?thesis
    using a s by (auto simp: inv_any_def inv_serial_def)
qed

theorem breaker_invariant_witness:
  "(0::int) < 1 \<and>
   run [Begin 0, Fail 0, Begin 60000] (new_CircuitBreakerImpl 1 60000, 0) =
     Some (\<lparr>state = HalfOpen, failureCount = 1, lastFailureTime = 0, nextAttemptTime = 60000,
            threshold = 1, timeout = 60000\<rparr>, 1) \<and>
   run_serial [Begin 0, Fail 0, Begin 60000] (new_CircuitBreakerImpl 1 60000, 0) =
     Some (\<lparr>state = HalfOpen, failureCount = 1, lastFailureTime = 0, nextAttemptTime = 60000,
            threshold = 1, timeout = 60000\<rparr>, 1) \<and>
   HalfOpen \<noteq> Closed"
  using breaker_invariant [of 1 "[Begin 0, Fail 0, Begin 60000]" 60000
      "\<lparr>state = HalfOpen, failureCount = 1, lastFailureTime = 0, nextAttemptTime = 60000,
        threshold = 1, timeout = 60000\<rparr>" 1]
  by (simp add: new_CircuitBreakerImpl_def canExecute_def enter_def recordFailure_def)

text \<open>
  Claim C4 as stated fails. With threshold 1 and timeout 60000, a call that fails at time 0
  opens the breaker; the call that starts at time 60000 makes it half-open. In that state
  \<open>failureCount = 1 \<ge> threshold\<close>, and the most recent transition was to half-open, not
  to open.
\<close>

theorem breaker_invariant_counterexample:
  "run_serial [Begin 0, Fail 0, Begin 60000] (new_CircuitBreakerImpl 1 60000, 0) =
     Some (\<lparr>state = HalfOpen, failureCount = 1, lastFailureTime = 0, nextAttemptTime = 60000,
            threshold = 1, timeout = 60000\<rparr>, 1) \<and>
   threshold \<lparr>state = HalfOpen, failureCount = 1, lastFailureTime = 0, nextAttemptTime = 60000,
            threshold = 1, timeout = 60000\<rparr>
     \<le> failureCount \<lparr>state = HalfOpen, failureCount = 1, lastFailureTime = 0,
            nextAttemptTime = 60000, threshold = 1, timeout = 60000\<rparr> \<and>
   state \<lparr>state = HalfOpen, failureCount = 1, lastFailureTime = 0, nextAttemptTime = 60000,
            threshold = 1, timeout = 60000\<rparr> \<noteq> Open"
  by (simp add: new_CircuitBreakerImpl_def canExecute_def enter_def recordFailure_def)

text \<open>
  A call through \<^verbatim>\<open>execute\<close> whose operation leaves the breaker alone is the start of a call
  followed by its end: the events describe what \<^verbatim>\<open>execute\<close> does to the breaker.
\<close>

lemma execute_as_events:
  assumes "fn (s\<lparr>circuitBreaker := enter (now s) (circuitBreaker s)\<rparr>) = (r, s2)"
    and "circuitBreaker s2 = enter (now s) (circuitBreaker s)"
    and "canExecute (now s) (circuitBreaker s)"
  shows "run [Begin (now s), case r of Inl e \<Rightarrow> Fail (now s2) | Inr v \<Rightarrow> Succeed] (circuitBreaker s, k) =
           Some (circuitBreaker (snd (execute fn s)), k)"
  using assms by (cases r) (simp_all add: execute_def)




text \<open>
  The warning of \<^verbatim>\<open>recordFailure\<close> can throw: with a timeout of 8640000000000000, a
  failure at time 1 opens the breaker with a \<open>nextAttemptTime\<close> that is no valid date,
  and the caller gets the \<^verbatim>\<open>RangeError\<close> instead of the error of the operation.
\<close>

lemma execute_warning_throws:
  "execute fail_op ((initial_sys 1 8640000000000000)\<lparr>now := 1\<rparr>) =
     (Inl RangeError,
      (initial_sys 1 8640000000000000)\<lparr>now := 1, circuitBreaker :=
        \<lparr>state = Open, failureCount = 1, lastFailureTime = 1,
         nextAttemptTime = 8640000000000001, threshold = 1, timeout = 8640000000000000\<rparr>\<rparr>)"
  by (simp add: execute_def canExecute_def enter_def recordFailure_def recordFailure_throws_def
      valid_date_def fail_op_def initial_sys_def new_CircuitBreakerImpl_def)

section \<open>Properties of the retry wrapper\<close>














section \<open>Properties of the health check\<close>

text \<open>
  Claim C3, on the code. No agent has been built. A first check recomputes and answers
  initializing, as the claim says. A second check one second later, within the 30 seconds
  for which the check is meant to be cached, answers unhealthy: not the status of the
  first check, and not what a recomputation gives for the same state.
\<close>

theorem recent_check_answers_unhealthy:
  "getHealth ((initial_sys 5 60000)\<lparr>now := 1700000000000\<rparr>) =
     (\<lparr>status = initializing, healthLastHealthCheck = 1700000000000,
       error = Some ''Agent not initialized''\<rparr>,
      (initial_sys 5 60000)\<lparr>now := 1700000000000, lastHealthCheck := 1700000000000\<rparr>) \<and>
   getHealth ((snd (getHealth ((initial_sys 5 60000)\<lparr>now := 1700000000000\<rparr>)))
                \<lparr>now := 1700000001000\<rparr>) =
     (\<lparr>status = unhealthy, healthLastHealthCheck = 1700000000000, error = None\<rparr>,
      (initial_sys 5 60000)\<lparr>now := 1700000001000, lastHealthCheck := 1700000000000\<rparr>)"
  by (simp add: getHealth_def initial_sys_def)

section \<open>Properties of the rate limiter\<close>

lemma same_window_before_reset:
  fixes a b W :: int
  assumes "0 < W" and "a div W = b div W"
  shows "b < a + W"
proof -
  have "b - b mod W = a - a mod W"
    using assms(2) by (simp add: minus_mod_eq_mult_div)
  moreover have "b mod W < W" "0 \<le> a mod W"
    using assms(1) by simp_all
  ultimately show ?thesis by linarith
qed

lemma checkLimit_fresh:
  assumes "requests s (limit_key ident (now s div W)) = None" and "0 \<le> W"
  shows "checkLimit M W ident s =
     (if 0 < M
      then (\<lparr>allowed = True, remaining = M - 1, resultResetTime = now s + W\<rparr>,
            s\<lparr>requests := (requests s)(limit_key ident (now s div W) \<mapsto>
                 \<lparr>count = 1, resetTime = now s + W\<rparr>)\<rparr>)
      else (\<lparr>allowed = False, remaining = 0, resultResetTime = now s + W\<rparr>, s))"
  using assms by (simp add: checkLimit_def Let_def)

lemma checkLimit_stored:
  assumes "requests s (limit_key ident (now s div W)) = Some e" and "now s \<le> resetTime e"
  shows "checkLimit M W ident s =
     (if count e < M
      then (\<lparr>allowed = True, remaining = M - count e - 1, resultResetTime = resetTime e\<rparr>,
            s\<lparr>requests := (requests s)(limit_key ident (now s div W) \<mapsto>
                 e\<lparr>count := count e + 1\<rparr>)\<rparr>)
      else (\<lparr>allowed = False, remaining = 0, resultResetTime = resetTime e\<rparr>, s))"
  using assms by (simp add: checkLimit_def Let_def map_upd_triv)

lemma of_char_digit: "n < 10 \<Longrightarrow> of_char (digit n) = 48 + n"
proof -
  assume "n < 10"
  then have "n \<in> {0, 1, 2, 3, 4, 5, 6, 7, 8, 9}" by auto
  then show ?thesis by (auto simp: digit_def)
qed

lemma digits_value_string_of_nat: "digits_value (string_of_nat n) = n"
proof (induction n rule: string_of_nat.induct)
  case (1 n)
  show ?case
  proof (cases "n < 10")
    case True
    then show ?thesis
      by (subst string_of_nat.simps) (simp add: digits_value_def of_char_digit)
  next
    case False
    with 1 have "digits_value (string_of_nat (n div 10)) = n div 10" by simp
    moreover have "n mod 10 < 10" by simp
    ultimately show ?thesis using False
      by (subst string_of_nat.simps) (simp add: digits_value_def of_char_digit)
  qed
qed

lemma string_of_nat_inj: "string_of_nat a = string_of_nat b \<Longrightarrow> a = b"
  by (metis digits_value_string_of_nat)

lemma digit_not_minus: "n < 10 \<Longrightarrow> digit n \<noteq> CHR ''-''"
proof
  assume "n < 10" and "digit n = CHR ''-''"
  then have "of_char (digit n) = (of_char (CHR ''-'') :: nat)" by simp
  with \<open>n < 10\<close> show False by (simp add: of_char_digit)
qed

lemma string_of_nat_no_minus: "CHR ''-'' \<notin> set (string_of_nat n)"
proof (induction n rule: string_of_nat.induct)
  case (1 n)
  show ?case
  proof (cases "n < 10")
    case True
    then show ?thesis
      using digit_not_minus [of n] by (subst string_of_nat.simps) auto
  next
    case False
    moreover have "n mod 10 < 10" by simp
    ultimately show ?thesis
      using 1 digit_not_minus [of "n mod 10"] by (subst string_of_nat.simps) auto
  qed
qed

lemma string_of_int_inj: "string_of_int i = string_of_int j \<Longrightarrow> i = j"
proof -
  assume eq: "string_of_int i = string_of_int j"
  consider "i < 0" "j < 0" | "0 \<le> i" "0 \<le> j" | "i < 0" "0 \<le> j" | "0 \<le> i" "j < 0"
    by linarith
  then show ?thesis
  proof cases
    case 1
    with eq have "nat (- i) = nat (- j)"
      by (auto simp: string_of_int_def dest: string_of_nat_inj)
    with 1 show ?thesis by simp
  next
    case 2
    with eq have "nat i = nat j"
      by (auto simp: string_of_int_def dest: string_of_nat_inj)
    with 2 show ?thesis by simp
  next
    case 3
    with eq have "CHR ''-'' # string_of_nat (nat (- i)) = string_of_nat (nat j)"
      by (simp add: string_of_int_def)
    then have "CHR ''-'' \<in> set (string_of_nat (nat j))"
      by (metis list.set_intros(1))
    then show ?thesis by (simp add: string_of_nat_no_minus)
  next
    case 4
    with eq have "string_of_nat (nat i) = CHR ''-'' # string_of_nat (nat (- j))"
      by (simp add: string_of_int_def)
    then have "CHR ''-'' \<in> set (string_of_nat (nat i))"
      by (metis list.set_intros(1))
    then show ?thesis by (simp add: string_of_nat_no_minus)
  qed
qed

lemma limit_key_inj: "limit_key ident a = limit_key ident b \<Longrightarrow> a = b"
  by (simp add: limit_key_def string_of_int_inj)

lemma checkLimit_window_count:
  assumes "0 \<le> W"
  shows "allowed (fst (checkLimit M W ident s)) = (window_count W ident s < M) \<and>
     window_count W ident (snd (checkLimit M W ident s)) =
       (if allowed (fst (checkLimit M W ident s))
        then window_count W ident s + 1 else window_count W ident s) \<and>
     remaining (fst (checkLimit M W ident s)) =
       max 0 (M - window_count W ident (snd (checkLimit M W ident s)))"
  using assms
  by (auto simp: checkLimit_def window_count_def Let_def split: option.splits)

lemma checkLimit_in_window:
  assumes "0 < W" and "t div W = k" and "t1 div W = k"
    and "requests s (limit_key ident k) = Some \<lparr>count = c, resetTime = t1 + W\<rparr>"
  shows "checkLimit M W ident (s\<lparr>now := t\<rparr>) =
     (if c < M
      then (\<lparr>allowed = True, remaining = M - c - 1, resultResetTime = t1 + W\<rparr>,
            s\<lparr>now := t, requests := (requests s)(limit_key ident k \<mapsto>
                 \<lparr>count = c + 1, resetTime = t1 + W\<rparr>)\<rparr>)
      else (\<lparr>allowed = False, remaining = 0, resultResetTime = t1 + W\<rparr>, s\<lparr>now := t\<rparr>))"
proof -
  from assms(1-3) have "t < t1 + W"
    by (intro same_window_before_reset) simp_all
  then have le: "now (s\<lparr>now := t\<rparr>) \<le> resetTime \<lparr>count = c, resetTime = t1 + W\<rparr>" by simp
  have st: "requests (s\<lparr>now := t\<rparr>) (limit_key ident (now (s\<lparr>now := t\<rparr>) div W)) =
      Some \<lparr>count = c, resetTime = t1 + W\<rparr>"
    using assms(2,4) by simp
  show ?thesis
    unfolding checkLimit_stored [OF st le] using assms(2) by simp
qed

lemma five_per_window:
  assumes W: "0 < W"
    and win: "\<forall>t \<in> set [t1, t2, t3, t4, t5, t6]. t div W = k"
    and nxt: "t7 div W = k + 1"
    and fresh: "requests s0 (limit_key ident k) = None" "requests s0 (limit_key ident (k + 1)) = None"
  shows "map (\<lambda>r. (allowed r, remaining r)) (fst (check_all 5 W ident [t1, t2, t3, t4, t5, t6, t7] s0)) =
     [(True, 4), (True, 3), (True, 2), (True, 1), (True, 0), (False, 0), (True, 4)]"
proof -
  define S where "S j t = s0\<lparr>now := t, requests := (requests s0)(limit_key ident k \<mapsto>
      \<lparr>count = j, resetTime = t1 + W\<rparr>)\<rparr>" for j t
  from win have w: "t1 div W = k" "t2 div W = k" "t3 div W = k" "t4 div W = k" "t5 div W = k"
    "t6 div W = k" by simp_all
  have ne: "limit_key ident (k + 1) \<noteq> limit_key ident k"
    using limit_key_inj [of ident "k + 1" k] by auto
  have first: "checkLimit 5 W ident (s0\<lparr>now := t1\<rparr>) =
      (\<lparr>allowed = True, remaining = 4, resultResetTime = t1 + W\<rparr>, S 1 t1)"
    using checkLimit_fresh [of "s0\<lparr>now := t1\<rparr>" ident W 5] fresh(1) w(1) W
    by (simp add: S_def)
  have step: "checkLimit 5 W ident ((S j t')\<lparr>now := t\<rparr>) =
      (if j < 5
       then (\<lparr>allowed = True, remaining = 5 - j - 1, resultResetTime = t1 + W\<rparr>, S (j + 1) t)
       else (\<lparr>allowed = False, remaining = 0, resultResetTime = t1 + W\<rparr>, S j t))"
    if "t div W = k" for j t t'
    using checkLimit_in_window [OF W that w(1), of "S j t'" ident j 5]
    by (simp add: S_def)
  have last: "checkLimit 5 W ident ((S j t')\<lparr>now := t7\<rparr>) =
      (\<lparr>allowed = True, remaining = 4, resultResetTime = t7 + W\<rparr>,
       (S j t7)\<lparr>requests := (requests (S j t7))(limit_key ident (k + 1) \<mapsto>
          \<lparr>count = 1, resetTime = t7 + W\<rparr>)\<rparr>)" for j t'
    using checkLimit_fresh [of "(S j t')\<lparr>now := t7\<rparr>" ident W 5] fresh(2) nxt W ne
    by (simp add: S_def)
  show ?thesis
    by (simp add: first step [OF w(2)] step [OF w(3)] step [OF w(4)] step [OF w(5)]
        step [OF w(6)] last)
qed

text \<open>
  Claim C9. For a window length that is not negative, a call of \<^verbatim>\<open>checkLimit\<close> is allowed
  if and only if the count of the current window is below \<^verbatim>\<open>maxRequests\<close>; an allowed call
  increments that count, a refused call leaves it; and \<open>remaining\<close> is
  \<open>max 0 (maxRequests - count)\<close> for the count after the call. With \<^verbatim>\<open>maxRequests = 5\<close>:
  six requests of one client at times of one window \<open>k\<close>, with no entry for the client
  before, are answered allowed with 4, 3, 2, 1, 0 remaining and then refused with 0
  remaining; a seventh request, in window \<open>k + 1\<close>, is allowed with 4 remaining.
\<close>

theorem fixed_window_admission:
  "(0 \<le> W \<longrightarrow>
      allowed (fst (checkLimit M W ident s)) = (window_count W ident s < M) \<and>
      window_count W ident (snd (checkLimit M W ident s)) =
        (if allowed (fst (checkLimit M W ident s))
         then window_count W ident s + 1 else window_count W ident s) \<and>
      remaining (fst (checkLimit M W ident s)) =
        max 0 (M - window_count W ident (snd (checkLimit M W ident s)))) \<and>
   (0 < V \<and> (\<forall>t \<in> set [t1, t2, t3, t4, t5, t6]. t div V = k) \<and> t7 div V = k + 1 \<and>
    requests s0 (limit_key client k) = None \<and> requests s0 (limit_key client (k + 1)) = None \<longrightarrow>
      map (\<lambda>r. (allowed r, remaining r))
        (fst (check_all 5 V client [t1, t2, t3, t4, t5, t6, t7] s0)) =
      [(True, 4), (True, 3), (True, 2), (True, 1), (True, 0), (False, 0), (True, 4)])"
  using checkLimit_window_count [of W M ident s]
    five_per_window [of V t1 t2 t3 t4 t5 t6 k t7 s0 client]
  by blast

theorem fixed_window_admission_witness:
  "allowed (fst (checkLimit 5 1000 ''10.0.0.1'' ((initial_sys 5 60000)\<lparr>now := 1000\<rparr>))) =
     (window_count 1000 ''10.0.0.1'' ((initial_sys 5 60000)\<lparr>now := 1000\<rparr>) < 5) \<and>
   map (\<lambda>r. (allowed r, remaining r))
     (fst (check_all 5 1000 ''10.0.0.1'' [1000, 1100, 1200, 1300, 1400, 1999, 2000]
        (initial_sys 5 60000))) =
   [(True, 4), (True, 3), (True, 2), (True, 1), (True, 0), (False, 0), (True, 4)]"
proof -
  have h: "(0::int) \<le> 1000" "(0::int) < 1000 \<and>
      (\<forall>t \<in> set [1000, 1100, 1200, 1300, 1400, 1999 :: int]. t div 1000 = 1) \<and>
      (2000::int) div 1000 = 1 + 1 \<and>
      requests (initial_sys 5 60000) (limit_key ''10.0.0.1'' 1) = None \<and>
      requests (initial_sys 5 60000) (limit_key ''10.0.0.1'' (1 + 1)) = None"
    by (simp_all add: initial_sys_def)
  from fixed_window_admission [of 1000 5 "''10.0.0.1''" "(initial_sys 5 60000)\<lparr>now := 1000\<rparr>"
      1000 1000 1100 1200 1300 1400 1999 1 2000 "initial_sys 5 60000" "''10.0.0.1''"] h
  show ?thesis by blast
qed

text \<open>The sweep, and the time of the first sweep after an entry has expired.\<close>

lemma cleanup_removes:
  "requests s key = Some e \<Longrightarrow> now s > resetTime e \<Longrightarrow> requests (cleanup s) key = None"
  by (simp add: cleanup_def)

lemma cleanup_keeps:
  "requests s key = Some e \<Longrightarrow> \<not> now s > resetTime e \<Longrightarrow> requests (cleanup s) key = Some e"
  by (simp add: cleanup_def)

lemma first_sweep_after_bounds:
  assumes "t0 \<le> r"
  shows "r < sweep_time t0 (first_sweep_after t0 r)"
    and "sweep_time t0 (first_sweep_after t0 r) \<le> r + sweep_interval"
proof -
  define q where "q = (r - t0) div 60000"
  define m where "m = (r - t0) mod 60000"
  have q: "0 \<le> q" using assms by (simp add: q_def)
  have d: "r - t0 = 60000 * q + m" by (simp add: q_def m_def)
  have b: "0 \<le> m" "m < 60000" by (simp_all add: m_def)
  have st: "sweep_time t0 (first_sweep_after t0 r) = t0 + 60000 * (q + 1)"
    using q by (simp add: sweep_time_def first_sweep_after_def sweep_interval_def q_def)
  show "r < sweep_time t0 (first_sweep_after t0 r)"
    unfolding st using d b by (simp add: algebra_simps)
  show "sweep_time t0 (first_sweep_after t0 r) \<le> r + sweep_interval"
    unfolding st sweep_interval_def using d b by (simp add: algebra_simps)
qed

lemma checkLimit_keeps_resetTime:
  assumes "requests s key = Some e" and "now s \<le> resetTime e"
  shows "\<exists>e'. requests (snd (checkLimit M W ident s)) key = Some e' \<and> resetTime e' = resetTime e"
  using assms by (auto simp: checkLimit_def Let_def split: option.splits)

text \<open>
  Claim C5, as amended. An entry is created with \<open>resetTime\<close> equal to the time of the
  request that creates it plus \<^verbatim>\<open>windowMs\<close>. While it has not expired, no call of
  \<^verbatim>\<open>checkLimit\<close> changes its \<open>resetTime\<close> and no sweep removes it. The first sweep that
  runs after \<open>resetTime\<close> removes it, and that sweep runs no later than \<open>resetTime\<close> plus
  one sweep interval.
\<close>

theorem entry_lifetime:
  "(requests s (limit_key ident (now s div W)) = None \<and> 0 \<le> W \<and> 0 < M \<longrightarrow>
      requests (snd (checkLimit M W ident s)) (limit_key ident (now s div W)) =
        Some \<lparr>count = 1, resetTime = now s + W\<rparr>) \<and>
   (requests s key = Some e \<and> now s \<le> resetTime e \<longrightarrow>
      (\<exists>e'. requests (snd (checkLimit M W client s)) key = Some e' \<and> resetTime e' = resetTime e) \<and>
      requests (cleanup s) key = Some e) \<and>
   (requests s key = Some e \<and> t0 \<le> resetTime e \<longrightarrow>
      resetTime e < sweep_time t0 (first_sweep_after t0 (resetTime e)) \<and>
      sweep_time t0 (first_sweep_after t0 (resetTime e)) \<le> resetTime e + sweep_interval \<and>
      requests (cleanup (s\<lparr>now := sweep_time t0 (first_sweep_after t0 (resetTime e))\<rparr>)) key = None)"
proof (intro conjI impI)
  assume "requests s (limit_key ident (now s div W)) = None \<and> 0 \<le> W \<and> 0 < M"
  then show "requests (snd (checkLimit M W ident s)) (limit_key ident (now s div W)) =
        Some \<lparr>count = 1, resetTime = now s + W\<rparr>"
    by (simp add: checkLimit_fresh)
next
  assume a: "requests s key = Some e \<and> now s \<le> resetTime e"
  then show "\<exists>e'. requests (snd (checkLimit M W client s)) key = Some e' \<and> resetTime e' = resetTime e"
    by (intro checkLimit_keeps_resetTime) simp_all
  from a show "requests (cleanup s) key = Some e"
    by (intro cleanup_keeps) simp_all
next
  assume a: "requests s key = Some e \<and> t0 \<le> resetTime e"
  then show "resetTime e < sweep_time t0 (first_sweep_after t0 (resetTime e))"
    and "sweep_time t0 (first_sweep_after t0 (resetTime e)) \<le> resetTime e + sweep_interval"
    by (simp_all add: first_sweep_after_bounds)
  then show "requests (cleanup (s\<lparr>now := sweep_time t0 (first_sweep_after t0 (resetTime e))\<rparr>)) key = None"
    using a by (intro cleanup_removes [where e = e]) simp_all
qed

theorem entry_lifetime_witness:
  "requests (snd (checkLimit 100 60000 ''10.0.0.1'' ((initial_sys 5 60000)\<lparr>now := 59999\<rparr>)))
     (limit_key ''10.0.0.1'' (59999 div 60000)) = Some \<lparr>count = 1, resetTime = 119999\<rparr> \<and>
   requests (cleanup ((initial_sys 5 60000)\<lparr>now := 90000,
       requests := [limit_key ''10.0.0.1'' 0 \<mapsto> \<lparr>count = 1, resetTime = 119999\<rparr>]\<rparr>))
     (limit_key ''10.0.0.1'' 0) = Some \<lparr>count = 1, resetTime = 119999\<rparr> \<and>
   sweep_time 30000 (first_sweep_after 30000 119999) = 150000 \<and>
   requests (cleanup ((initial_sys 5 60000)\<lparr>now := 150000,
       requests := [limit_key ''10.0.0.1'' 0 \<mapsto> \<lparr>count = 1, resetTime = 119999\<rparr>]\<rparr>))
     (limit_key ''10.0.0.1'' 0) = None"
proof -
  define e where "e = \<lparr>count = 1, resetTime = 119999\<rparr>"
  define key where "key = limit_key ''10.0.0.1'' 0"
  define s where "s = (initial_sys 5 60000)\<lparr>now := 59999\<rparr>"
  define u where "u = (initial_sys 5 60000)\<lparr>now := 90000, requests := [key \<mapsto> e]\<rparr>"
  have h1: "requests s (limit_key ''10.0.0.1'' (now s div 60000)) = None \<and> (0::int) \<le> 60000 \<and> (0::int) < 100"
    by (simp add: s_def initial_sys_def)
  have h2: "requests u key = Some e \<and> now u \<le> resetTime e"
    by (simp add: u_def e_def)
  have h3: "requests u key = Some e \<and> 30000 \<le> resetTime e"
    by (simp add: u_def e_def)
  have t: "sweep_time 30000 (first_sweep_after 30000 (resetTime e)) = 150000"
    by (simp add: sweep_time_def first_sweep_after_def sweep_interval_def e_def)
  from entry_lifetime [of s "''10.0.0.1''" 60000 100 key e "''10.0.0.1''" 30000] h1
  have 1: "requests (snd (checkLimit 100 60000 ''10.0.0.1'' s)) (limit_key ''10.0.0.1'' (now s div 60000)) =
      Some \<lparr>count = 1, resetTime = now s + 60000\<rparr>"
    by blast
  from entry_lifetime [of u "''10.0.0.1''" 60000 100 key e "''10.0.0.1''" 30000] h2 h3
  have 2: "requests (cleanup u) key = Some e"
    and 3: "requests (cleanup (u\<lparr>now := sweep_time 30000 (first_sweep_after 30000 (resetTime e))\<rparr>)) key = None"
    by blast+
  from 1 2 3 t show ?thesis
    by (simp add: s_def u_def e_def key_def initial_sys_def)
qed

text \<open>
  Claim C5 as stated fails. With a window of one hour, a request at time 3599999 lies in
  window 0, which ends at 3600000; its entry gets \<open>resetTime = 7199999\<close>. The sweeps at
  3660000 (the end of the window plus one sweep interval) and at 3720000 leave the entry
  in the map.
\<close>

theorem entry_lifetime_counterexample:
  "requests
     (cleanup ((cleanup ((snd (checkLimit 100 3600000 ''10.0.0.1''
          ((initial_sys 5 60000)\<lparr>now := 3599999\<rparr>)))\<lparr>now := 3660000\<rparr>))\<lparr>now := 3720000\<rparr>))
     (limit_key ''10.0.0.1'' (3599999 div 3600000)) = Some \<lparr>count = 1, resetTime = 7199999\<rparr> \<and>
   (3599999 div 3600000 + 1) * 3600000 + sweep_interval = (3660000::int) \<and>
   sweep_time 0 61 = 3660000 \<and> sweep_time 0 62 = 3720000"
  by (simp add: checkLimit_def cleanup_def initial_sys_def sweep_interval_def sweep_time_def Let_def)

text \<open>
  Claim C1, on the code. A client has used up its 100 requests of the current window and
  no agent has been built yet. The next chat request is answered with status 429, but
  the handler has run first: the agent has been initialized (\<^verbatim>\<open>getAgent\<close>) and the message
  has reached the remote model (\<^verbatim>\<open>agent.run\<close>).
\<close>

theorem rate_limited_request_runs_handler:
  "allowed (fst (checkLimit 100 60000 ''10.0.0.1''
      ((initial_served 5 60000)\<lparr>now := 120000,
         requests := [limit_key ''10.0.0.1'' 2 \<mapsto> \<lparr>count = 100, resetTime = 170000\<rparr>]\<rparr>))) = False \<and>
   POST (default_config ''sk-test'') (Inl ThrownUndefined) echo_remote
      [''x-forwarded-for'' \<mapsto> ''10.0.0.1''] (Message ''hello'')
      ((initial_served 5 60000)\<lparr>now := 120000,
         requests := [limit_key ''10.0.0.1'' 2 \<mapsto> \<lparr>count = 100, resetTime = 170000\<rparr>]\<rparr>) =
     (Inr \<lparr>status_code = 429,
           headers = [''Retry-After'' \<mapsto> string_of_int 50,
                      ''X-RateLimit-Limit'' \<mapsto> string_of_int 100,
                      ''X-RateLimit-Remaining'' \<mapsto> ''0'',
                      ''X-RateLimit-Reset'' \<mapsto> string_of_int 170000],
           body = RateLimitExceeded 50\<rparr>,
      (initial_served 5 60000)\<lparr>now := 120000,
         requests := [limit_key ''10.0.0.1'' 2 \<mapsto> \<lparr>count = 100, resetTime = 170000\<rparr>],
         agent := Some \<lparr>tools = [''greet''], run_callable = True, model = ''gpt-4o-mini''\<rparr>,
         remote_calls := [''hello'']\<rparr>)"
  by (simp add: POST_def withRateLimit_def handleChat_def getAgent_def initializeAgent_def
      withRetry_def retry_loop.simps execute_def construct_agent_def agent_run_def echo_remote_def
      checkLimit_def getClientIP_def header_def trim_def is_space_def
      default_config_def getRateLimitWindow_def initial_served_def new_CircuitBreakerImpl_def
      canExecute_def enter_def recordSuccess_def valid_date_def Let_def)

text \<open>The first sixteen characters of the encoding are those of the first twelve bytes.\<close>

lemma base64_groups:
  "3 * n \<le> length xs \<Longrightarrow> take (4 * n) (base64 xs) = base64 (take (3 * n) xs)"
proof (induction n arbitrary: xs)
  case 0
  then show ?case by simp
next
  case (Suc n)
  then obtain a b c rest where xs: "xs = a # b # c # rest"
    by (cases xs rule: base64.cases) auto
  with Suc.prems have "3 * n \<le> length rest" by simp
  then have "take (4 * n) (base64 rest) = base64 (take (3 * n) rest)" by (rule Suc.IH)
  then show ?case by (simp add: xs Let_def take_Cons')
qed

lemma base64_first_twelve: "12 \<le> length xs \<Longrightarrow> take 16 (base64 xs) = base64 (take 12 xs)"
  using base64_groups [of 4 xs] by simp

text \<open>The encoding of a string of digits, with or without a sign, is the string itself.\<close>

lemma utf8_append: "utf8 (xs @ ys) = utf8 xs @ utf8 ys"
  by (simp add: utf8_def)

lemma utf8_ascii: "\<forall>c \<in> set xs. (of_char c :: nat) < 128 \<Longrightarrow> utf8 xs = xs"
  by (induction xs) (simp_all add: utf8_def utf8_char_def)

lemma digit_ascii: "n < 10 \<Longrightarrow> (of_char (digit n) :: nat) < 128"
  by (simp add: of_char_digit)

lemma string_of_nat_ascii: "\<forall>c \<in> set (string_of_nat n). (of_char c :: nat) < 128"
proof (induction n rule: string_of_nat.induct)
  case (1 n)
  show ?case
  proof (cases "n < 10")
    case True
    then show ?thesis
      using digit_ascii [of n] by (subst string_of_nat.simps) simp
  next
    case False
    moreover have "n mod 10 < 10" by simp
    ultimately show ?thesis
      using 1 digit_ascii [of "n mod 10"] by (subst string_of_nat.simps) auto
  qed
qed

lemma utf8_string_of_int: "utf8 (string_of_int t) = string_of_int t"
  by (rule utf8_ascii) (simp add: string_of_int_def string_of_nat_ascii)

lemma getClientIP_fallback:
  assumes "header hs ''x-forwarded-for'' = None" and "header hs ''x-real-ip'' = None"
    and "header hs ''x-client-ip'' = None"
  shows "getClientIP hs t = take 16 (base64 (utf8 (fallback_user_agent hs) @ string_of_int t))"
  using assms
  by (simp add: getClientIP_def fallback_user_agent_def utf8_append utf8_string_of_int)

text \<open>
  Claim C10, as amended. For a request with none of the headers \<^verbatim>\<open>x-forwarded-for\<close>,
  \<^verbatim>\<open>x-real-ip\<close> and \<^verbatim>\<open>x-client-ip\<close>, the identity is the first 16 base64 characters of
  the bytes of the user agent in UTF-8 (of \<^verbatim>\<open>unknown\<close> when there is none) followed by the
  time in decimal. When the user agent has at least 12 bytes in UTF-8, the identity is the
  encoding of its first 12 bytes and is the same at all times. When it has fewer, by \<open>n\<close>
  bytes, the identity depends on the time only through the first \<open>n\<close> decimal digits of
  the time: two requests at times that agree on these digits get the same identity.
\<close>

theorem fallback_identity:
  assumes "header hs ''x-forwarded-for'' = None" and "header hs ''x-real-ip'' = None"
    and "header hs ''x-client-ip'' = None"
  shows "getClientIP hs t = take 16 (base64 (utf8 (fallback_user_agent hs) @ string_of_int t)) \<and>
         (12 \<le> length (utf8 (fallback_user_agent hs)) \<longrightarrow>
            getClientIP hs t = base64 (take 12 (utf8 (fallback_user_agent hs))) \<and>
            getClientIP hs t = getClientIP hs t') \<and>
         (12 \<le> length (utf8 (fallback_user_agent hs)) + length (string_of_int t) \<and>
          12 \<le> length (utf8 (fallback_user_agent hs)) + length (string_of_int t') \<and>
          take (12 - length (utf8 (fallback_user_agent hs))) (string_of_int t) =
            take (12 - length (utf8 (fallback_user_agent hs))) (string_of_int t') \<longrightarrow>
            getClientIP hs t = getClientIP hs t')"
proof -
  note f = getClientIP_fallback [OF assms]
  let ?ua = "utf8 (fallback_user_agent hs)"
  have long: "getClientIP hs u = base64 (take 12 ?ua)" if "12 \<le> length ?ua" for u
    using that by (simp add: f base64_first_twelve)
  have pre: "getClientIP hs u = base64 (take 12 ?ua @ take (12 - length ?ua) (string_of_int u))"
    if "12 \<le> length ?ua + length (string_of_int u)" for u
    using that by (simp add: f base64_first_twelve)
  show ?thesis
    using f long pre by auto
qed

theorem fallback_identity_witness:
  "getClientIP [''user-agent'' \<mapsto> ''Mozilla/5.0 (X11; Linux x86_64)''] 1700000000000 =
     base64 ''Mozilla/5.0 '' \<and>
   getClientIP [''user-agent'' \<mapsto> ''Mozilla/5.0 (X11; Linux x86_64)''] 1700000000000 =
     getClientIP [''user-agent'' \<mapsto> ''Mozilla/5.0 (X11; Linux x86_64)''] 1800000000000 \<and>
   getClientIP [''user-agent'' \<mapsto> [CHR ''c'', CHR ''a'', CHR ''f'', CHR 0xE9, CHR ''/'', CHR ''1'']]
       1700000012345 =
     getClientIP [''user-agent'' \<mapsto> [CHR ''c'', CHR ''a'', CHR ''f'', CHR 0xE9, CHR ''/'', CHR ''1'']]
       1700009999999"
proof -
  define hl :: "string \<rightharpoonup> string" where "hl = [''user-agent'' \<mapsto> ''Mozilla/5.0 (X11; Linux x86_64)'']"
  define hs :: "string \<rightharpoonup> string"
    where "hs = [''user-agent'' \<mapsto> [CHR ''c'', CHR ''a'', CHR ''f'', CHR 0xE9, CHR ''/'', CHR ''1'']]"
  have nl: "header hl ''x-forwarded-for'' = None" "header hl ''x-real-ip'' = None"
    "header hl ''x-client-ip'' = None"
    by (simp_all add: hl_def header_def)
  have ns: "header hs ''x-forwarded-for'' = None" "header hs ''x-real-ip'' = None"
    "header hs ''x-client-ip'' = None"
    by (simp_all add: hs_def header_def)
  have ul: "utf8 (fallback_user_agent hl) = ''Mozilla/5.0 (X11; Linux x86_64)''"
    by (simp add: fallback_user_agent_def hl_def header_def utf8_def utf8_char_def)
  have us: "length (utf8 (fallback_user_agent hs)) = 7"
    by (simp add: fallback_user_agent_def hs_def header_def utf8_def utf8_char_def)
  have d: "string_of_int 1700000012345 = ''1700000012345''"
    "string_of_int 1700009999999 = ''1700009999999''"
    by (simp_all add: string_of_int_def string_of_nat.simps digit_def)
  have len: "12 \<le> length (utf8 (fallback_user_agent hl))" by (simp add: ul)
  have tk: "take 12 (utf8 (fallback_user_agent hl)) = ''Mozilla/5.0 ''" by (simp add: ul)
  from fallback_identity [OF nl, of 1700000000000 1800000000000] len
  have "getClientIP hl 1700000000000 = base64 (take 12 (utf8 (fallback_user_agent hl)))"
    and 2: "getClientIP hl 1700000000000 = getClientIP hl 1800000000000"
    by blast+
  then have 1: "getClientIP hl 1700000000000 = base64 ''Mozilla/5.0 ''"
    unfolding tk by simp
  have p: "12 \<le> length (utf8 (fallback_user_agent hs)) + length (string_of_int 1700000012345) \<and>
      12 \<le> length (utf8 (fallback_user_agent hs)) + length (string_of_int 1700009999999) \<and>
      take (12 - length (utf8 (fallback_user_agent hs))) (string_of_int 1700000012345) =
        take (12 - length (utf8 (fallback_user_agent hs))) (string_of_int 1700009999999)"
    by (simp add: us d)
  from fallback_identity [OF ns, of 1700000012345 1700009999999] p
  have 3: "getClientIP hs 1700000012345 = getClientIP hs 1700009999999"
    by blast
  from 1 2 3 have "getClientIP hl 1700000000000 = base64 ''Mozilla/5.0 '' \<and>
      getClientIP hl 1700000000000 = getClientIP hl 1800000000000 \<and>
      getClientIP hs 1700000012345 = getClientIP hs 1700009999999"
    by blast
  then show ?thesis
    unfolding hl_def hs_def .
qed

text \<open>
  Claim C10 as stated fails for short user agents. With the 8-byte user agent
  \<^verbatim>\<open>curl/8.0\<close>, and with no user agent at all, the requests at times 1700000000000 and
  1700000000001 get the same identity: only the leading digits of the time are among the
  first 12 bytes.
\<close>

theorem fallback_identity_counterexample:
  "getClientIP [''user-agent'' \<mapsto> ''curl/8.0''] 1700000000000 =
   getClientIP [''user-agent'' \<mapsto> ''curl/8.0''] 1700000000001 \<and>
   getClientIP Map.empty 1700000000000 = getClientIP Map.empty 1700000000001"
  by (simp add: getClientIP_def header_def string_of_int_def string_of_nat.simps digit_def
      utf8_def utf8_char_def Let_def)

text \<open>
  The encoding matters: a user agent of 11 characters, one of them beyond 127, has 12
  bytes, and its identity is the same at all times.
\<close>

lemma getClientIP_two_byte_character:
  "getClientIP [''user-agent'' \<mapsto> [CHR ''c'', CHR ''a'', CHR ''f'', CHR 0xE9, CHR ''-'', CHR ''c'',
       CHR ''l'', CHR ''i'', CHR ''/'', CHR ''1'', CHR ''0'']] 1700000000000 =
   base64 [CHR ''c'', CHR ''a'', CHR ''f'', CHR 0xC3, CHR 0xA9, CHR ''-'', CHR ''c'',
       CHR ''l'', CHR ''i'', CHR ''/'', CHR ''1'', CHR ''0'']"
  by (simp add: getClientIP_def header_def string_of_int_def string_of_nat.simps digit_def
      utf8_def utf8_char_def Let_def)

end
